theory Spec2Isabelle
  imports Main "HOL-Library.Char_ord" "HOL-Library.List_Lexorder"
begin

section \<open>Values, processes and the file tree\<close>

text \<open>
  The two scripts \<^verbatim>\<open>extract_data.py\<close> (the static variant) and
  \<^verbatim>\<open>extract_all_transactions.py\<close> (the discovery variant) fetch JSON documents with
  \<^verbatim>\<open>curl\<close> and store them below \<^verbatim>\<open>DATA_DIR\<close>.

  A character of the model is a code point below 256; a Python \<^verbatim>\<open>str\<close> is a
  \<^typ>\<open>string\<close>.  What \<^verbatim>\<open>json.loads\<close> returns is a Python value; the value
  \<^verbatim>\<open>None\<close> of a failed fetch and the decoded JSON \<^verbatim>\<open>null\<close> are the same value.
\<close>

datatype pyfloat = Finite int int | Infinite bool | NaN

datatype pyval =
    PyNone
  | PyBool bool
  | PyInt int
  | PyFloat pyfloat
  | PyStr string
  | PyList "pyval list"
  | PyDict "(string \<times> pyval) list"

text \<open>
  Truth value testing, the test of every \<^verbatim>\<open>if data:\<close>.  A float
  \<open>Finite m e\<close> stands for \<open>m * 2 ^ e\<close>; it is false when it is zero.
\<close>

fun truthy :: "pyval \<Rightarrow> bool" where
  "truthy PyNone = False"
| "truthy (PyBool b) = b"
| "truthy (PyInt i) = (i \<noteq> 0)"
| "truthy (PyFloat (Finite m e)) = (m \<noteq> 0)"
| "truthy (PyFloat (Infinite sg)) = True"
| "truthy (PyFloat NaN) = True"
| "truthy (PyStr s) = (s \<noteq> [])"
| "truthy (PyList xs) = (xs \<noteq> [])"
| "truthy (PyDict kvs) = (kvs \<noteq> [])"

datatype py_error = AttributeError | TypeError

text \<open>
  The result of \<^verbatim>\<open>subprocess.run([...], capture_output=True, text=True)\<close>: the call
  raises (with a message), or it completes with a return code, the captured standard
  output and the captured standard error.
\<close>

datatype proc_result = Raised string | Completed int string string

text \<open>
  What happened for one URL.  The HTTP status of the response, when there was one, is
  known to the server and to curl, not to the script: \<^verbatim>\<open>curl -s --max-time 30 url\<close>
  is run without \<^verbatim>\<open>--fail\<close> and without \<^verbatim>\<open>--write-out\<close>, and the script reads
  \<open>returncode\<close>, \<open>stdout\<close> and \<open>stderr\<close> only.
\<close>

record exchange =
  http_status :: "nat option"
  outcome :: proc_result

text \<open>
  The environment of a run: the API behind curl (a function of the URL: the API does
  not change during a run), \<^verbatim>\<open>json.loads\<close> (\<open>Inl\<close> the message of the exception it
  raises), \<^verbatim>\<open>json.dumps(data, indent=2, ensure_ascii=False)\<close>, and the absolute path
  of \<^verbatim>\<open>DATA_DIR\<close>, which is \<^verbatim>\<open>Path(__file__).parent / "data"\<close>.
\<close>

record env =
  api :: "string \<Rightarrow> exchange"
  loads :: "string \<Rightarrow> string + pyval"
  dumps :: "pyval \<Rightarrow> string"
  data_dir :: string

text \<open>
  A path is the list of its components below \<^verbatim>\<open>DATA_DIR\<close>.  The tree lists the
  entries that are not directories made by the scripts, in the order in which a directory
  walk yields them: an entry is a text file, or it cannot be read as UTF-8 text
  (\<open>Unreadable\<close> carries the message of the exception \<^verbatim>\<open>read_text\<close> raises).
  Directories are implicit in the paths, so \<^verbatim>\<open>mkdir(parents=True, exist_ok=True)\<close>
  leaves the tree as it is; the output tree is writable.
\<close>

type_synonym path = "string list"

datatype fnode = Text string | Unreadable string

type_synonym tree = "(path \<times> fnode) list"

record world =
  files :: tree
  calls :: "string list"
  out :: "string list"

text \<open>
  \<open>calls\<close> is the list of URLs curl was started on, oldest first; \<open>out\<close> holds
  what each \<^verbatim>\<open>print\<close> call wrote, terminator included.
\<close>

definition print :: "string \<Rightarrow> world \<Rightarrow> world" where
  "print text s = s\<lparr>out := out s @ [text @ [CHR 0x0A]]\<rparr>"

definition print_end :: "string \<Rightarrow> string \<Rightarrow> world \<Rightarrow> world" where
  "print_end text e s = s\<lparr>out := out s @ [text @ e]\<rparr>"

fun fs_write :: "path \<Rightarrow> fnode \<Rightarrow> tree \<Rightarrow> tree" where
  "fs_write p v [] = [(p, v)]"
| "fs_write p v ((q, w) # fs) = (if p = q then (p, v) # fs else (q, w) # fs_write p v fs)"

definition BASE_URL :: string where
  "BASE_URL = ''http://localhost:8000/api''"

definition digit_char :: "nat \<Rightarrow> char" where
  "digit_char d = char_of (48 + d)"

fun str_nat :: "nat \<Rightarrow> string" where
  "str_nat n = (if n < 10 then [digit_char n] else str_nat (n div 10) @ [digit_char (n mod 10)])"

declare str_nat.simps [simp del]

section \<open>The static variant: extract_data.py\<close>

definition fetch_json_static :: "env \<Rightarrow> string \<Rightarrow> world \<Rightarrow> pyval \<times> world" where
  "fetch_json_static e path s =
     (let url = BASE_URL @ path;
          s1 = s\<lparr>calls := calls s @ [url]\<rparr>
      in case outcome (api e url) of
           Raised msg \<Rightarrow> (PyNone, print (''  ERROR fetching '' @ url @ '': '' @ msg) s1)
         | Completed returncode stdout stderr \<Rightarrow>
             if returncode = 0 \<and> stdout \<noteq> [] then
               (case loads e stdout of
                  Inl msg \<Rightarrow> (PyNone, print (''  ERROR fetching '' @ url @ '': '' @ msg) s1)
                | Inr v \<Rightarrow> (v, s1))
             else (PyNone, print (''  ERROR fetching '' @ url @ '': '' @ stderr) s1))"

definition path_name :: "path \<Rightarrow> string" where
  "path_name p = (if p = [] then [] else last p)"

definition save_json_static :: "env \<Rightarrow> pyval \<Rightarrow> path \<Rightarrow> world \<Rightarrow> world" where
  "save_json_static e data filepath s =
     print (''  Saved: '' @ path_name filepath)
       (s\<lparr>files := fs_write filepath (Text (dumps e data)) (files s)\<rparr>)"

subsection \<open>urllib.parse.quote with safe=""\<close>

definition always_safe :: string where
  "always_safe = ''ABCDEFGHIJKLMNOPQRSTUVWXYZabcdefghijklmnopqrstuvwxyz0123456789_.-~''"

definition hex_digit :: "nat \<Rightarrow> char" where
  "hex_digit d = ''0123456789ABCDEF'' ! (d mod 16)"

definition utf8_bytes :: "char \<Rightarrow> nat list" where
  "utf8_bytes c =
     (let n = (of_char c :: nat)
      in if n < 128 then [n] else [192 + n div 64, 128 + n mod 64])"

definition quote_byte :: "nat \<Rightarrow> string" where
  "quote_byte b =
     (if b < 128 \<and> char_of b \<in> set always_safe then [char_of b]
      else [CHR ''%'', hex_digit (b div 16), hex_digit (b mod 16)])"

definition quote :: "string \<Rightarrow> string" where
  "quote string = concat (map quote_byte (concat (map utf8_bytes string)))"

text \<open>\<^verbatim>\<open>str.replace(old, new)\<close> for one-character \<open>old\<close> and \<open>new\<close>.\<close>

definition replace :: "char \<Rightarrow> char \<Rightarrow> string \<Rightarrow> string" where
  "replace old new s = map (\<lambda>c. if c = old then new else c) s"

subsection \<open>extract_merchants and extract_merchant_details\<close>


text \<open>\<^verbatim>\<open>plan.get("plan_key")\<close>: only a dict has \<^verbatim>\<open>get\<close>.\<close>

definition plan_get :: "pyval \<Rightarrow> py_error + pyval" where
  "plan_get plan =
     (case plan of
        PyDict kvs \<Rightarrow> (case map_of kvs ''plan_key'' of None \<Rightarrow> Inr PyNone | Some v \<Rightarrow> Inr v)
      | _ \<Rightarrow> Inl AttributeError)"

text \<open>The body of \<^verbatim>\<open>for plan in data\<close>, lines 126 to 133.\<close>

definition plan_step :: "env \<Rightarrow> string \<Rightarrow> pyval \<Rightarrow> world \<Rightarrow> py_error + world" where
  "plan_step e merchant_id plan s =
     (case plan_get plan of
        Inl err \<Rightarrow> Inl err
      | Inr plan_key \<Rightarrow>
          if truthy plan_key then
            (case plan_key of
               PyStr key \<Rightarrow>
                 (let encoded_key = quote key;
                      (plan_data, s1) =
                        fetch_json_static e (''/merchants/'' @ merchant_id @ ''/plans/'' @ encoded_key) s
                  in if truthy plan_data then
                       (let safe_key = replace (CHR ''/'') (CHR ''_'') (replace (CHR '':'') (CHR ''_'') key)
                        in Inr (save_json_static e plan_data
                                  [''plans'', ''details'', safe_key @ ''.json''] s1))
                     else Inr s1)
             | _ \<Rightarrow> Inl TypeError)
          else Inr s)"

fun plan_loop :: "env \<Rightarrow> string \<Rightarrow> pyval list \<Rightarrow> world \<Rightarrow> py_error + world" where
  "plan_loop e merchant_id [] s = Inr s"
| "plan_loop e merchant_id (plan # plans) s =
     (case plan_step e merchant_id plan s of
        Inl err \<Rightarrow> Inl err
      | Inr s1 \<Rightarrow> plan_loop e merchant_id plans s1)"








subsection \<open>extract_transactions\<close>

definition TRANSACTION_IDS :: "string list" where
  "TRANSACTION_IDS =
    [
     ''dd129486-0b41-4b60-b023-b84834eb88d1'',
     ''dd120776-d050-44ad-a807-0881ec66b25c'',
     ''dd12603e-30b4-4893-b057-d1424ce10003'',
     ''dd12344d-722b-437d-8666-aef69eb17b61'',
     ''dd125369-f35e-4e36-907d-239111edb4a9'',
     ''dd12df73-641f-40f2-872f-0778b2be7e61'',
     ''dd121f11-f763-405d-98ce-842f34c35c6c'',
     ''dd1206b0-34ca-46be-9295-16e931c93e1a'',
     ''dd125d74-2755-45aa-9417-7fd1d713c029'',
     ''dd12856f-3ac4-47cb-b29d-def4dccf6fb8'',
     ''dd128d1b-8ba1-41cd-927e-d026dffc34ed'',
     ''dd122799-534a-4e19-877f-1a10553825e0'',
     ''dd12018c-c025-4f86-9430-b97bc8106d51'',
     ''dd125388-c220-4011-9761-e146588451e5'',
     ''dd121522-c0ea-46d9-9074-a9e409521d16'',
     ''dd51749a-4664-4f9b-8834-3996c32a24bc'',
     ''dd51011c-8d82-4970-b29b-d3fe460d8505'',
     ''dd118c65-bbb1-4e92-bbd7-570c1f43529b'',
     ''dd110d81-b79a-4732-8640-e3a9b27252be'',
     ''dd11abab-cfff-44eb-98e4-6eab31e07281'',
     ''dd11fe33-3411-4063-81b5-b690c12a9d05'',
     ''dd11f147-bc61-440a-9c57-da3ee1555c33'',
     ''dd112beb-08f1-4704-a9d7-50641a87ffab'',
     ''dd51e51b-0bd3-4836-bdcb-f1c6a7461a18'',
     ''dd51e08a-dc97-4661-8bb7-62b80ee14c90'',
     ''dd5125eb-e841-4243-9671-fe970e4889e1'',
     ''dd1165e7-c8f8-4f36-8491-0aba02258787'',
     ''dd1164da-0615-4722-a71b-b7e57527be28'',
     ''dd115ffb-fc94-463d-91db-f1d97fbeeec6'',
     ''dd529820-7122-4654-a460-780793c69d2d'',
     ''dd529e47-1d23-4cc9-93c3-09f358f1ce81'',
     ''dd52ccfb-a405-4f6e-9ea3-817937b7ecdb'',
     ''dd110f78-8797-478d-b3e6-71f00e2ed4a9'',
     ''dd1172bf-ffe6-4722-b158-53b800aeea29'',
     ''dd11e06e-ab40-4983-b765-e37a72e63a9c'',
     ''dd1230a4-aeee-4348-bb78-108c86a228a9'',
     ''dd122c66-a05a-4222-8f58-096a6ee93695'',
     ''dd126839-98c9-471f-a2c2-e3627e5b3321'',
     ''dd125455-3bae-440c-890a-938b482232e7'',
     ''dd12b879-ce1f-4f32-b053-947ff3f01206'',
     ''dd121dc7-5631-4b65-bc0e-f7b61e65ab15'',
     ''dd12bd17-a537-4da0-9a8e-57281544f63a'',
     ''dd1241e1-dd57-4836-ac8a-c16299efb867'',
     ''dd124584-e716-4f4b-acc7-6054a3a32888'',
     ''dd529fe7-95f5-4682-b09e-2281b7358158'',
     ''dd516e91-6817-4d4a-82bf-028d4734a783'',
     ''dd518512-77dd-4aaf-98b6-2838cac63908'']"

text \<open>
  The body of \<^verbatim>\<open>for i, tx_id in enumerate(TRANSACTION_IDS, 1)\<close>; \<open>n\<close> is the
  length of the list.  The two fetches stand side by side in the source: the second is
  not nested under the test of the first.
\<close>

definition tx_step_static :: "env \<Rightarrow> nat \<Rightarrow> nat \<Rightarrow> string \<Rightarrow> world \<Rightarrow> world" where
  "tx_step_static e n i tx_id s =
     (let s1 = print (''  ['' @ str_nat i @ ''/'' @ str_nat n @ ''] '' @ take 8 tx_id @ ''...'') s;
          (data, s2) = fetch_json_static e (''/transactions/'' @ tx_id) s1;
          s3 = (if truthy data
                then save_json_static e data [''transactions'', tx_id @ ''.json''] s2 else s2);
          (why, s4) = fetch_json_static e (''/transactions/'' @ tx_id @ ''/why'') s3
      in if truthy why
         then save_json_static e why [''transactions'', ''why'', tx_id @ ''.json''] s4 else s4)"

fun tx_loop_static :: "env \<Rightarrow> nat \<Rightarrow> nat \<Rightarrow> string list \<Rightarrow> world \<Rightarrow> world" where
  "tx_loop_static e n i [] s = s"
| "tx_loop_static e n i (tx_id # rest) s =
     tx_loop_static e n (Suc i) rest (tx_step_static e n i tx_id s)"

definition extract_transactions_of :: "env \<Rightarrow> string list \<Rightarrow> world \<Rightarrow> world" where
  "extract_transactions_of e ids s =
     tx_loop_static e (length ids) 1 ids
       (print (CHR 0x0A # ''=== Extracting '' @ str_nat (length ids) @ '' transactions ==='') s)"

definition extract_transactions :: "env \<Rightarrow> world \<Rightarrow> world" where
  "extract_transactions e s = extract_transactions_of e TRANSACTION_IDS s"

definition banner :: string where
  "banner = replicate 60 (CHR ''='')"


section \<open>The discovery variant: extract_all_transactions.py\<close>

subsection \<open>The pattern\<close>

text \<open>
  \<^verbatim>\<open>re.compile(r'"transaction_id":\s*"([a-f0-9-]{36})"')\<close>.  \<open>is_space\<close> is
  \<^verbatim>\<open>\s\<close> of a \<^verbatim>\<open>str\<close> pattern on the code points below 256.
\<close>

definition dq :: char where
  "dq = CHR 0x22"

definition is_space :: "char \<Rightarrow> bool" where
  "is_space c = ((of_char c :: nat) \<in> {9, 10, 11, 12, 13, 28, 29, 30, 31, 32, 133, 160})"

definition id_char :: "char \<Rightarrow> bool" where
  "id_char c = (c \<in> set ''abcdef0123456789-'')"

definition key_text :: string where
  "key_text = dq # ''transaction_id'' @ [dq, CHR '':'']"

text \<open>
  A match of the pattern at the start of the text: the captured group and the text
  after the match.  The quote that must follow \<^verbatim>\<open>\s*\<close> is no space, and the quote that
  must follow the group is no character of the class, so the greedy choice is the only
  one.
\<close>

definition match_here :: "string \<Rightarrow> (string \<times> string) option" where
  "match_here s =
     (if take (length key_text) s = key_text then
        (case dropWhile is_space (drop (length key_text) s) of
           [] \<Rightarrow> None
         | c # r \<Rightarrow>
             if c = dq \<and> 36 \<le> length r \<and> list_all id_char (take 36 r) then
               (case drop 36 r of
                  [] \<Rightarrow> None
                | c' # rest \<Rightarrow> if c' = dq then Some (take 36 r, rest) else None)
             else None)
      else None)"

lemma match_here_shorter:
  assumes "match_here s = Some (tx, rest)"
  shows "length rest < length s"
proof -
  from assms have "\<exists>c r. dropWhile is_space (drop (length key_text) s) = c # r \<and> drop 36 r = dq # rest"
    by (simp add: match_here_def split: if_splits list.splits)
  then obtain c r where
    r: "dropWhile is_space (drop (length key_text) s) = c # r" and
    rest: "drop 36 r = dq # rest"
    by blast
  have "length (dropWhile is_space (drop (length key_text) s)) \<le> length s"
    by (rule order_trans [OF length_dropWhile_le]) simp
  with r have "length r < length s" by simp
  moreover have "length (drop 36 r) = Suc (length rest)"
    by (simp only: rest list.size length_Cons)
  then have "length rest < length r" by simp
  ultimately show ?thesis by simp
qed

text \<open>
  \<^verbatim>\<open>pattern.findall(content)\<close>: the groups of the matches found from left to right,
  each search starting where the last match ended.
\<close>

function findall :: "string \<Rightarrow> string list" where
  "findall [] = []"
| "findall (c # cs) =
     (case match_here (c # cs) of
        Some (tx, rest) \<Rightarrow> tx # findall rest
      | None \<Rightarrow> findall cs)"
  by pat_completeness auto
termination
proof (relation "measure length")
  show "wf (measure length)" by simp
next
  fix c cs x2 x y
  assume "match_here (c # cs) = Some x2" and "(x, y) = x2"
  then have "match_here (c # cs) = Some (x, y)" by simp
  then have "length y < length (c # cs)" by (rule match_here_shorter)
  then show "(y, c # cs) \<in> measure length" by simp
next
  fix c cs
  show "(cs, c # cs) \<in> measure length" by simp
qed

subsection \<open>find_all_transaction_ids\<close>

text \<open>\<^verbatim>\<open>str(json_file)\<close> and the names \<^verbatim>\<open>*.json\<close> matches.\<close>

definition path_str :: "env \<Rightarrow> path \<Rightarrow> string" where
  "path_str e p = data_dir e @ concat (map (\<lambda>c. CHR ''/'' # c) p)"

definition fnmatch_json :: "string \<Rightarrow> bool" where
  "fnmatch_json name = (5 \<le> length name \<and> drop (length name - 5) name = ''.json'')"

text \<open>\<^verbatim>\<open>sub in s\<close> for two strings.\<close>

fun str_in :: "string \<Rightarrow> string \<Rightarrow> bool" where
  "str_in sub [] = (sub = [])"
| "str_in sub (c # cs) = (take (length sub) (c # cs) = sub \<or> str_in sub cs)"

definition rglob_json :: "tree \<Rightarrow> tree" where
  "rglob_json fs = filter (\<lambda>(p, node). fnmatch_json (path_name p)) fs"

fun find_loop :: "env \<Rightarrow> tree \<Rightarrow> string set \<times> world \<Rightarrow> string set \<times> world" where
  "find_loop e [] (tx_ids, s) = (tx_ids, s)"
| "find_loop e ((json_file, node) # rest) (tx_ids, s) =
     (if str_in ''transactions'' (path_str e json_file) then find_loop e rest (tx_ids, s)
      else case node of
             Text content \<Rightarrow> find_loop e rest (tx_ids \<union> set (findall content), s)
           | Unreadable msg \<Rightarrow>
               find_loop e rest
                 (tx_ids, print (''  Error reading '' @ path_str e json_file @ '': '' @ msg) s))"

definition find_all_transaction_ids :: "env \<Rightarrow> world \<Rightarrow> string set \<times> world" where
  "find_all_transaction_ids e s = find_loop e (rglob_json (files s)) ({}, s)"

subsection \<open>fetch_json, save_json and main\<close>

definition fetch_json :: "env \<Rightarrow> string \<Rightarrow> world \<Rightarrow> pyval \<times> world" where
  "fetch_json e path s =
     (let url = BASE_URL @ path;
          s1 = s\<lparr>calls := calls s @ [url]\<rparr>
      in case outcome (api e url) of
           Raised msg \<Rightarrow> (PyNone, print (''  ERROR fetching '' @ url @ '': '' @ msg) s1)
         | Completed returncode stdout stderr \<Rightarrow>
             if returncode = 0 \<and> stdout \<noteq> [] then
               (case loads e stdout of
                  Inl msg \<Rightarrow> (PyNone, print (''  ERROR fetching '' @ url @ '': '' @ msg) s1)
                | Inr v \<Rightarrow> (v, s1))
             else (PyNone, s1))"

definition save_json :: "env \<Rightarrow> pyval \<Rightarrow> path \<Rightarrow> world \<Rightarrow> world" where
  "save_json e data filepath s = s\<lparr>files := fs_write filepath (Text (dumps e data)) (files s)\<rparr>"

text \<open>
  \<^verbatim>\<open>Path.stem\<close>: the name up to its last dot, when that dot is neither the first nor
  the last character.
\<close>

definition stem :: "string \<Rightarrow> string" where
  "stem name =
     (let i = length (dropWhile (\<lambda>c. c \<noteq> CHR ''.'') (rev name))
      in if 1 < i \<and> i < length name then take (i - 1) name else name)"

text \<open>The names of \<^verbatim>\<open>TX_DIR.glob("*.json")\<close>: the entries of the transactions directory itself.\<close>

definition glob_tx :: "tree \<Rightarrow> string list" where
  "glob_tx fs =
     concat (map (\<lambda>(p, node).
        case p of
          [d, name] \<Rightarrow> if d = ''transactions'' \<and> fnmatch_json name then [name] else []
        | _ \<Rightarrow> []) fs)"

definition existing_ids :: "tree \<Rightarrow> string set" where
  "existing_ids fs = set (map stem (filter (\<lambda>name. name \<noteq> ''why'') (glob_tx fs)))"

text \<open>
  The body of \<^verbatim>\<open>for i, tx_id in enumerate(sorted(missing), 1)\<close>, with the two
  counters; \<open>n\<close> is \<^verbatim>\<open>len(missing)\<close>.
\<close>

definition tx_step :: "env \<Rightarrow> nat \<Rightarrow> nat \<Rightarrow> string \<Rightarrow> nat \<times> nat \<times> world \<Rightarrow> nat \<times> nat \<times> world" where
  "tx_step e n i tx_id acc =
     (case acc of (success, failed, s) \<Rightarrow>
        (let s1 = print_end (''  ['' @ str_nat i @ ''/'' @ str_nat n @ ''] '' @ take 12 tx_id @ ''...'') '' '' s;
             (data, s2) = fetch_json e (''/transactions/'' @ tx_id) s1
         in if truthy data then
              (let s3 = save_json e data [''transactions'', tx_id @ ''.json''] s2;
                   (why_data, s4) = fetch_json e (''/transactions/'' @ tx_id @ ''/why'') s3;
                   s5 = (if truthy why_data
                         then save_json e why_data [''transactions'', ''why'', tx_id @ ''.json''] s4
                         else s4)
               in (success + 1, failed, print ''OK'' s5))
            else (success, failed + 1, print ''FAILED'' s2)))"

fun tx_loop :: "env \<Rightarrow> nat \<Rightarrow> nat \<Rightarrow> string list \<Rightarrow> nat \<times> nat \<times> world \<Rightarrow> nat \<times> nat \<times> world" where
  "tx_loop e n i [] acc = acc"
| "tx_loop e n i (tx_id # rest) acc = tx_loop e n (Suc i) rest (tx_step e n i tx_id acc)"

definition main :: "env \<Rightarrow> world \<Rightarrow> world" where
  "main e s =
     (let s1 = print banner s;
          s2 = print ''Extracting all transaction details'' s1;
          s3 = print banner s2;
          s4 = print (CHR 0x0A # ''Scanning existing JSON files for transaction IDs...'') s3;
          (tx_ids, s5) = find_all_transaction_ids e s4;
          s6 = print (''Found '' @ str_nat (card tx_ids) @ '' unique transaction IDs'') s5;
          existing = existing_ids (files s6);
          missing = tx_ids - existing;
          s7 = print (''Already extracted: '' @ str_nat (card existing)) s6;
          s8 = print (''Need to extract: '' @ str_nat (card missing)) s7
      in if missing = {} then print (CHR 0x0A # ''All transactions already extracted!'') s8
         else
           (let s9 = print (CHR 0x0A # ''Extracting '' @ str_nat (card missing) @ '' transactions...'') s8;
                (success, failed, s10) =
                   tx_loop e (card missing) 1 (sorted_list_of_set missing) (0, 0, s9);
                s11 = print (CHR 0x0A # banner) s10;
                s12 = print ''Extraction complete!'' s11;
                s13 = print (''Success: '' @ str_nat success @ '', Failed: '' @ str_nat failed) s12
            in print banner s13))"

section \<open>Example environments\<close>

text \<open>
  Concrete environments for the examples below.  \<open>example_loads\<close> agrees with
  \<^verbatim>\<open>json.loads\<close> on the bodies it lists and stands for a decoding error on every
  other body; \<open>example_dumps\<close> agrees with \<^verbatim>\<open>json.dumps(.., indent=2)\<close> on the
  values the examples save.
\<close>

definition not_found_body :: string where
  "not_found_body = ''{'' @ [dq] @ ''detail'' @ [dq] @ '': '' @ [dq] @ ''Not Found'' @ [dq] @ ''}''"

definition example_loads :: "string \<Rightarrow> string + pyval" where
  "example_loads body =
     (if body = ''null'' then Inr PyNone
      else if body = ''{}'' then Inr (PyDict [])
      else if body = ''[]'' then Inr (PyList [])
      else if body = ''[1]'' then Inr (PyList [PyInt 1])
      else if body = not_found_body then Inr (PyDict [(''detail'', PyStr ''Not Found'')])
      else Inl ''Expecting value: line 1 column 1 (char 0)'')"

definition example_dumps :: "pyval \<Rightarrow> string" where
  "example_dumps v =
     (if v = PyList [PyInt 1] then ''['' @ [CHR 0x0A] @ ''  1'' @ [CHR 0x0A] @ '']''
      else if v = PyDict [(''detail'', PyStr ''Not Found'')]
        then ''{'' @ [CHR 0x0A] @ ''  '' @ [dq] @ ''detail'' @ [dq] @ '': '' @ [dq] @ ''Not Found'' @ [dq]
               @ [CHR 0x0A] @ ''}''
      else ''null'')"

definition example_env :: "(string \<Rightarrow> exchange) \<Rightarrow> env" where
  "example_env a = \<lparr>api = a, loads = example_loads, dumps = example_dumps, data_dir = ''/srv/demo/data''\<rparr>"

text \<open>An API that answers every URL with status 200 and the body \<^verbatim>\<open>[1]\<close>.\<close>

definition api_ok :: "string \<Rightarrow> exchange" where
  "api_ok url = \<lparr>http_status = Some 200, outcome = Completed 0 ''[1]'' []\<rparr>"

text \<open>An API nobody listens on: curl exits with code 7 and writes nothing.\<close>

definition api_down :: "string \<Rightarrow> exchange" where
  "api_down url = \<lparr>http_status = None, outcome = Completed 7 [] []\<rparr>"

definition world0 :: "tree \<Rightarrow> world" where
  "world0 fs = \<lparr>files = fs, calls = [], out = []\<rparr>"

definition id_a :: string where
  "id_a = ''dd129486-0b41-4b60-b023-b84834eb88d1''"

definition id_b :: string where
  "id_b = ''dd120776-d050-44ad-a807-0881ec66b25c''"

definition tx_field :: "string \<Rightarrow> string" where
  "tx_field x = key_text @ '' '' @ dq # x @ [dq]"

definition one_tx :: string where
  "one_tx = ''{'' @ tx_field id_a @ ''}''"

definition two_tx :: string where
  "two_tx = ''[{'' @ tx_field id_a @ ''}, {'' @ tx_field id_b @ ''}, {'' @ tx_field id_a @ ''}]''"

text \<open>An API that answers every URL with status 404 and a JSON error document.\<close>

definition api_404 :: "string \<Rightarrow> exchange" where
  "api_404 url = \<lparr>http_status = Some 404, outcome = Completed 0 not_found_body []\<rparr>"

text \<open>An API that answers every URL with status 200 and the body \<^verbatim>\<open>null\<close>.\<close>

definition api_null :: "string \<Rightarrow> exchange" where
  "api_null url = \<lparr>http_status = Some 200, outcome = Completed 0 ''null'' []\<rparr>"

text \<open>
  The three cases of C2 in the words of the specification: a non-success transport
  outcome, a response whose status is not 2xx, a body that does not decode.
\<close>

definition spec_fetch_failure :: "env \<Rightarrow> string \<Rightarrow> bool" where
  "spec_fetch_failure e path =
     (let x = api e (BASE_URL @ path)
      in (case outcome x of Raised msg \<Rightarrow> True | Completed returncode stdout stderr \<Rightarrow> returncode \<noteq> 0)
         \<or> (case http_status x of None \<Rightarrow> False | Some status \<Rightarrow> \<not> (200 \<le> status \<and> status < 300))
         \<or> (case outcome x of
               Raised msg \<Rightarrow> False
             | Completed returncode stdout stderr \<Rightarrow>
                 (case loads e stdout of Inl msg \<Rightarrow> True | Inr v \<Rightarrow> False)))"


definition tree_c4 :: tree where
  "tree_c4 = [([''merchants'', ''30.json''], Text one_tx)]"

text \<open>
  An API whose why documents are served and whose other endpoints time out: curl exits
  with code 28.
\<close>

definition api_why_only :: "string \<Rightarrow> exchange" where
  "api_why_only url =
     (if drop (length url - 4) url = ''/why''
      then \<lparr>http_status = Some 200, outcome = Completed 0 ''[1]'' []\<rparr>
      else \<lparr>http_status = None, outcome = Completed 28 [] []\<rparr>)"


section \<open>Closed forms of the fetches, the scan and the loops\<close>

text \<open>
  What a fetch returns does not depend on the state it runs in: \<open>fetched\<close> is the value of
  both \<open>fetch_json\<close> functions.
\<close>

definition fetched :: "env \<Rightarrow> string \<Rightarrow> pyval" where
  "fetched e path =
     (case outcome (api e (BASE_URL @ path)) of
        Raised msg \<Rightarrow> PyNone
      | Completed returncode stdout stderr \<Rightarrow>
          if returncode = 0 \<and> stdout \<noteq> [] then
            (case loads e stdout of Inl msg \<Rightarrow> PyNone | Inr v \<Rightarrow> v)
          else PyNone)"

lemma fst_fetch_json: "fst (fetch_json e path s) = fetched e path"
  by (cases "outcome (api e (BASE_URL @ path))")
     (simp_all add: fetch_json_def fetched_def Let_def split: sum.split)

lemma files_fetch_json: "files (snd (fetch_json e path s)) = files s"
  by (cases "outcome (api e (BASE_URL @ path))")
     (simp_all add: fetch_json_def Let_def print_def split: sum.split)

lemma calls_fetch_json: "calls (snd (fetch_json e path s)) = calls s @ [BASE_URL @ path]"
  by (cases "outcome (api e (BASE_URL @ path))")
     (simp_all add: fetch_json_def Let_def print_def split: sum.split)

lemma fst_fetch_json_static: "fst (fetch_json_static e path s) = fetched e path"
  by (cases "outcome (api e (BASE_URL @ path))")
     (simp_all add: fetch_json_static_def fetched_def Let_def split: sum.split)

lemma files_fetch_json_static: "files (snd (fetch_json_static e path s)) = files s"
  by (cases "outcome (api e (BASE_URL @ path))")
     (simp_all add: fetch_json_static_def Let_def print_def split: sum.split)

lemma calls_fetch_json_static:
  "calls (snd (fetch_json_static e path s)) = calls s @ [BASE_URL @ path]"
  by (cases "outcome (api e (BASE_URL @ path))")
     (simp_all add: fetch_json_static_def Let_def print_def split: sum.split)

lemma files_print [simp]: "files (print t s) = files s"
  by (simp add: print_def)

lemma calls_print [simp]: "calls (print t s) = calls s"
  by (simp add: print_def)

lemma files_print_end [simp]: "files (print_end t x s) = files s"
  by (simp add: print_end_def)

lemma calls_print_end [simp]: "calls (print_end t x s) = calls s"
  by (simp add: print_end_def)

lemma files_save_json [simp]:
  "files (save_json e d p s) = fs_write p (Text (dumps e d)) (files s)"
  by (simp add: save_json_def)

lemma calls_save_json [simp]: "calls (save_json e d p s) = calls s"
  by (simp add: save_json_def)

lemma files_save_json_static [simp]:
  "files (save_json_static e d p s) = fs_write p (Text (dumps e d)) (files s)"
  by (simp add: save_json_static_def)

lemma calls_save_json_static [simp]: "calls (save_json_static e d p s) = calls s"
  by (simp add: save_json_static_def)

lemma map_of_fs_write: "map_of (fs_write p v fs) = (map_of fs)(p \<mapsto> v)"
  by (induction fs) (auto simp: fun_eq_iff)




lemma str_in_iff: "str_in sub s \<longleftrightarrow> (\<exists>pre post. s = pre @ sub @ post)"
proof (induction s)
  case Nil
  then show ?case by auto
next
  case (Cons c cs)
  have a: "take (length sub) (c # cs) = sub \<longleftrightarrow> (\<exists>post. c # cs = sub @ post)"
    by (metis append_eq_conv_conj append_take_drop_id)
  show ?case
  proof
    assume "str_in sub (c # cs)"
    then consider "take (length sub) (c # cs) = sub" | "str_in sub cs" by auto
    then show "\<exists>pre post. c # cs = pre @ sub @ post"
    proof cases
      case 1
      with a obtain post where "c # cs = [] @ sub @ post" by auto
      then show ?thesis by blast
    next
      case 2
      with Cons obtain pre post where "cs = pre @ sub @ post" by blast
      then have "c # cs = (c # pre) @ sub @ post" by simp
      then show ?thesis by blast
    qed
  next
    assume "\<exists>pre post. c # cs = pre @ sub @ post"
    then obtain pre post where pp: "c # cs = pre @ sub @ post" by blast
    show "str_in sub (c # cs)"
    proof (cases pre)
      case Nil
      with pp have "c # cs = sub @ post" by simp
      then have "take (length sub) (c # cs) = sub" by simp
      then show ?thesis by simp
    next
      case (Cons x pre')
      with pp have "cs = pre' @ sub @ post" by simp
      with Cons.IH show ?thesis by auto
    qed
  qed
qed



subsection \<open>The pattern\<close>

lemma not_space_dq: "\<not> is_space dq"
  by (simp add: is_space_def dq_def)

lemma match_here_Some:
  "match_here s = Some (tx, rest) \<longleftrightarrow>
     (\<exists>ws. s = key_text @ ws @ dq # tx @ dq # rest \<and> list_all is_space ws
        \<and> length tx = 36 \<and> list_all id_char tx)"
proof
  assume m: "match_here s = Some (tx, rest)"
  then have k: "take (length key_text) s = key_text"
    by (simp add: match_here_def split: if_splits)
  define d where "d = drop (length key_text) s"
  from m k have "\<exists>r. dropWhile is_space d = dq # r \<and> 36 \<le> length r
      \<and> list_all id_char (take 36 r) \<and> drop 36 r = dq # rest \<and> tx = take 36 r"
    by (simp add: match_here_def d_def split: if_splits list.splits)
  then obtain r where r: "dropWhile is_space d = dq # r" "36 \<le> length r"
      "list_all id_char (take 36 r)" "drop 36 r = dq # rest" "tx = take 36 r"
    by blast
  have "s = key_text @ d"
    using k by (metis append_take_drop_id d_def)
  moreover have "d = takeWhile is_space d @ dq # r"
    using r(1) by (metis takeWhile_dropWhile_id)
  moreover have "r = tx @ dq # rest"
    using r(4,5) by (metis append_take_drop_id)
  moreover have "list_all is_space (takeWhile is_space d)"
    by (simp add: list_all_iff) (meson set_takeWhileD)
  ultimately have "s = key_text @ takeWhile is_space d @ dq # tx @ dq # rest
      \<and> list_all is_space (takeWhile is_space d)"
    by simp
  moreover have "length tx = 36" using r(2,5) by simp
  moreover have "list_all id_char tx" using r(3,5) by simp
  ultimately show "\<exists>ws. s = key_text @ ws @ dq # tx @ dq # rest \<and> list_all is_space ws
        \<and> length tx = 36 \<and> list_all id_char tx"
    by blast
next
  assume "\<exists>ws. s = key_text @ ws @ dq # tx @ dq # rest \<and> list_all is_space ws
        \<and> length tx = 36 \<and> list_all id_char tx"
  then obtain ws where s: "s = key_text @ ws @ dq # tx @ dq # rest"
    and ws: "list_all is_space ws" and tx: "length tx = 36" "list_all id_char tx"
    by blast
  have "dropWhile is_space (ws @ dq # tx @ dq # rest) = dq # tx @ dq # rest"
    using ws not_space_dq by (simp add: list_all_iff dropWhile_append2)
  then show "match_here s = Some (tx, rest)"
    using tx by (simp add: match_here_def s)
qed

lemma findall_sound:
  "x \<in> set (findall s) \<Longrightarrow>
     \<exists>pre ws post. s = pre @ key_text @ ws @ dq # x @ dq # post \<and> list_all is_space ws
        \<and> length x = 36 \<and> list_all id_char x"
proof (induction s rule: findall.induct)
  case 1
  then show ?case by simp
next
  case (2 c cs)
  show ?case
  proof (cases "match_here (c # cs)")
    case None
    with 2 obtain pre ws post where
      "cs = pre @ key_text @ ws @ dq # x @ dq # post \<and> list_all is_space ws
        \<and> length x = 36 \<and> list_all id_char x"
      by auto
    then have "c # cs = (c # pre) @ key_text @ ws @ dq # x @ dq # post \<and> list_all is_space ws
        \<and> length x = 36 \<and> list_all id_char x"
      by simp
    then show ?thesis by blast
  next
    case (Some m)
    obtain tx rest where m: "m = (tx, rest)" by (cases m)
    from Some m obtain ws0 where s0: "c # cs = key_text @ ws0 @ dq # tx @ dq # rest"
      "list_all is_space ws0" "length tx = 36" "list_all id_char tx"
      using match_here_Some by blast
    from "2.prems" Some m have "x = tx \<or> x \<in> set (findall rest)" by simp
    then show ?thesis
    proof
      assume "x = tx"
      with s0 have "c # cs = [] @ key_text @ ws0 @ dq # x @ dq # rest \<and> list_all is_space ws0
        \<and> length x = 36 \<and> list_all id_char x" by simp
      then show ?thesis by blast
    next
      assume "x \<in> set (findall rest)"
      with "2.IH"(2) [OF Some m [symmetric]] obtain pre ws post where
        r: "rest = pre @ key_text @ ws @ dq # x @ dq # post" "list_all is_space ws"
          "length x = 36" "list_all id_char x"
        by blast
      have "c # cs = (key_text @ ws0 @ dq # tx @ dq # pre) @ key_text @ ws @ dq # x @ dq # post"
        using s0(1) r(1) by simp
      with r show ?thesis by blast
    qed
  qed
qed


lemma findall_id_char: "x \<in> set (findall s) \<Longrightarrow> list_all id_char x"
  using findall_sound by blast


subsection \<open>The scan\<close>

definition skipped :: "env \<Rightarrow> path \<Rightarrow> bool" where
  "skipped e p = str_in ''transactions'' (path_str e p)"

definition file_ids :: "env \<Rightarrow> path \<times> fnode \<Rightarrow> string set" where
  "file_ids e f =
     (if skipped e (fst f) then {}
      else case snd f of Text content \<Rightarrow> set (findall content) | Unreadable msg \<Rightarrow> {})"

definition file_log :: "env \<Rightarrow> path \<times> fnode \<Rightarrow> string list" where
  "file_log e f =
     (if skipped e (fst f) then []
      else case snd f of
             Text content \<Rightarrow> []
           | Unreadable msg \<Rightarrow> [''  Error reading '' @ path_str e (fst f) @ '': '' @ msg @ [CHR 0x0A]])"

lemma find_loop_eq:
  "find_loop e fs (ids, s) =
     (ids \<union> (\<Union>f\<in>set fs. file_ids e f), s\<lparr>out := out s @ concat (map (file_log e) fs)\<rparr>)"
proof (induction fs arbitrary: ids s)
  case Nil
  then show ?case by simp
next
  case (Cons f fs)
  obtain p node where f: "f = (p, node)" by (cases f)
  show ?case
    by (cases node)
       (auto simp: f Cons file_ids_def file_log_def skipped_def print_def)
qed

lemma find_all_eq:
  "find_all_transaction_ids e s =
     (\<Union>f\<in>set (rglob_json (files s)). file_ids e f,
      s\<lparr>out := out s @ concat (map (file_log e) (rglob_json (files s)))\<rparr>)"
  by (simp add: find_all_transaction_ids_def find_loop_eq)

lemma rglob_json_append: "rglob_json (xs @ ys) = rglob_json xs @ rglob_json ys"
  by (simp add: rglob_json_def)

lemma set_rglob_json:
  "set (rglob_json fs) = {f \<in> set fs. fnmatch_json (path_name (fst f))}"
  by (auto simp: rglob_json_def)

lemma find_all_ids:
  "fst (find_all_transaction_ids e s) =
     \<Union> {set (findall content) | p content.
          (p, Text content) \<in> set (files s) \<and> fnmatch_json (path_name p)
          \<and> \<not> str_in ''transactions'' (path_str e p)}"
proof -
  have "(\<Union>f\<in>set (rglob_json (files s)). file_ids e f) =
     \<Union> {set (findall content) | p content.
          (p, Text content) \<in> set (files s) \<and> fnmatch_json (path_name p)
          \<and> \<not> str_in ''transactions'' (path_str e p)}" (is "?L = ?R")
  proof (rule set_eqI)
    fix x
    show "x \<in> ?L \<longleftrightarrow> x \<in> ?R"
    proof
      assume "x \<in> ?L"
      then obtain p node where f: "(p, node) \<in> set (files s)" "fnmatch_json (path_name p)"
          "x \<in> file_ids e (p, node)"
        by (auto simp: set_rglob_json)
      then obtain content where "node = Text content" "x \<in> set (findall content)"
          "\<not> str_in ''transactions'' (path_str e p)"
        by (cases node) (auto simp: file_ids_def skipped_def split: if_splits)
      with f show "x \<in> ?R" by blast
    next
      assume "x \<in> ?R"
      then obtain p content where f: "(p, Text content) \<in> set (files s)"
          "fnmatch_json (path_name p)" "\<not> str_in ''transactions'' (path_str e p)"
          "x \<in> set (findall content)"
        by blast
      then have "(p, Text content) \<in> set (rglob_json (files s))"
        by (simp add: set_rglob_json)
      moreover have "x \<in> file_ids e (p, Text content)"
        using f by (simp add: file_ids_def skipped_def)
      ultimately show "x \<in> ?L" by blast
    qed
  qed
  then show ?thesis by (simp add: find_all_eq)
qed

lemma files_find_all [simp]: "files (snd (find_all_transaction_ids e s)) = files s"
  by (simp add: find_all_eq)

lemma calls_find_all [simp]: "calls (snd (find_all_transaction_ids e s)) = calls s"
  by (simp add: find_all_eq)

lemma find_all_files_cong:
  "set (files s) = set (files s') \<Longrightarrow>
   fst (find_all_transaction_ids e s) = fst (find_all_transaction_ids e s')"
  by (simp add: find_all_ids)


lemma find_all_id_char:
  "x \<in> fst (find_all_transaction_ids e s) \<Longrightarrow> list_all id_char x"
  by (auto simp: find_all_ids dest: findall_id_char)

lemma finite_file_ids [simp]: "finite (file_ids e f)"
  by (simp add: file_ids_def split: fnode.split)

lemma finite_find_all [simp]: "finite (fst (find_all_transaction_ids e s))"
  by (simp add: find_all_eq)

subsection \<open>The loop of main\<close>

definition primary_url :: "string \<Rightarrow> string" where
  "primary_url tx_id = BASE_URL @ ''/transactions/'' @ tx_id"

definition why_url :: "string \<Rightarrow> string" where
  "why_url tx_id = BASE_URL @ ''/transactions/'' @ tx_id @ ''/why''"

definition step_calls :: "env \<Rightarrow> string \<Rightarrow> string list" where
  "step_calls e tx_id =
     (if truthy (fetched e (''/transactions/'' @ tx_id))
      then [primary_url tx_id, why_url tx_id] else [primary_url tx_id])"

definition step_files :: "env \<Rightarrow> string \<Rightarrow> tree \<Rightarrow> tree" where
  "step_files e tx_id fs =
     (if truthy (fetched e (''/transactions/'' @ tx_id)) then
        (let f1 = fs_write [''transactions'', tx_id @ ''.json'']
                    (Text (dumps e (fetched e (''/transactions/'' @ tx_id)))) fs
         in if truthy (fetched e (''/transactions/'' @ tx_id @ ''/why''))
            then fs_write [''transactions'', ''why'', tx_id @ ''.json'']
                   (Text (dumps e (fetched e (''/transactions/'' @ tx_id @ ''/why'')))) f1
            else f1)
      else fs)"

lemma tx_step_eq:
  "tx_step e n i tx_id (success, failed, s) = (su, fa, s') \<Longrightarrow>
     calls s' = calls s @ step_calls e tx_id
     \<and> files s' = step_files e tx_id (files s)
     \<and> su = (if truthy (fetched e (''/transactions/'' @ tx_id)) then success + 1 else success)
     \<and> fa = (if truthy (fetched e (''/transactions/'' @ tx_id)) then failed else failed + 1)"
  by (auto simp: tx_step_def Let_def case_prod_beta fst_fetch_json files_fetch_json
      calls_fetch_json step_calls_def step_files_def primary_url_def why_url_def
      split: if_splits)

lemma tx_loop_calls:
  "calls (snd (snd (tx_loop e n i ids acc)))
     = calls (snd (snd acc)) @ concat (map (step_calls e) ids)"
proof (induction ids arbitrary: i acc)
  case Nil
  then show ?case by simp
next
  case (Cons tx_id ids)
  obtain success failed s where acc: "acc = (success, failed, s)" by (cases acc)
  obtain su fa s' where st: "tx_step e n i tx_id (success, failed, s) = (su, fa, s')"
    by (cases "tx_step e n i tx_id (success, failed, s)")
  show ?case using tx_step_eq [OF st] by (simp add: acc st Cons)
qed

lemma tx_loop_files:
  "files (snd (snd (tx_loop e n i ids acc)))
     = fold (step_files e) ids (files (snd (snd acc)))"
proof (induction ids arbitrary: i acc)
  case Nil
  then show ?case by simp
next
  case (Cons tx_id ids)
  obtain success failed s where acc: "acc = (success, failed, s)" by (cases acc)
  obtain su fa s' where st: "tx_step e n i tx_id (success, failed, s) = (su, fa, s')"
    by (cases "tx_step e n i tx_id (success, failed, s)")
  show ?case using tx_step_eq [OF st] by (simp add: acc st Cons)
qed

definition work :: "env \<Rightarrow> world \<Rightarrow> string list" where
  "work e s =
     sorted_list_of_set (fst (find_all_transaction_ids e s) - existing_ids (files s))"

lemma find_all_print:
  "fst (find_all_transaction_ids e (print t s)) = fst (find_all_transaction_ids e s)"
  by (rule find_all_files_cong) simp

lemma work_Nil:
  "fst (find_all_transaction_ids e s) - existing_ids (files s) = {} \<Longrightarrow> work e s = []"
  by (simp add: work_def)

lemma main_calls: "calls (main e s) = calls s @ concat (map (step_calls e) (work e s))"
proof (cases "fst (find_all_transaction_ids e s) - existing_ids (files s) = {}")
  case True
  then show ?thesis
    by (simp add: main_def Let_def case_prod_beta work_Nil [OF True] find_all_print)
next
  case False
  then show ?thesis
    by (simp add: main_def Let_def case_prod_beta tx_loop_calls work_def find_all_print)
qed

lemma main_files: "files (main e s) = fold (step_files e) (work e s) (files s)"
proof (cases "fst (find_all_transaction_ids e s) - existing_ids (files s) = {}")
  case True
  then show ?thesis
    by (simp add: main_def Let_def case_prod_beta work_Nil [OF True] find_all_print)
next
  case False
  then show ?thesis
    by (simp add: main_def Let_def case_prod_beta tx_loop_files work_def find_all_print)
qed

lemma set_work:
  "set (work e s) = fst (find_all_transaction_ids e s) - existing_ids (files s)"
  by (simp add: work_def)

lemma findall_one_tx: "findall one_tx = [id_a]"
  by code_simp

lemma findall_two_tx: "findall two_tx = [id_a, id_b, id_a]"
  by code_simp

lemma scan_ids_insert:
  "fst (find_all_transaction_ids e (s\<lparr>files := pre @ f # post\<rparr>))
     = fst (find_all_transaction_ids e (s\<lparr>files := pre @ post\<rparr>))
       \<union> (if fnmatch_json (path_name (fst f)) then file_ids e f else {})"
  by (cases f) (auto simp: find_all_eq rglob_json_def)

lemma scan_out_insert:
  "out (snd (find_all_transaction_ids e (s\<lparr>files := pre @ f # post\<rparr>)))
     = out s @ concat (map (file_log e) (rglob_json pre))
       @ (if fnmatch_json (path_name (fst f)) then file_log e f else [])
       @ concat (map (file_log e) (rglob_json post))"
  by (cases f) (simp add: find_all_eq rglob_json_def)

lemma skipped_transactions_subtree: "skipped e (''transactions'' # rest)"
proof -
  have "path_str e (''transactions'' # rest)
      = (data_dir e @ ''/'') @ ''transactions'' @ concat (map (\<lambda>c. CHR ''/'' # c) rest)"
    by (simp add: path_str_def)
  then show ?thesis unfolding skipped_def str_in_iff by blast
qed

lemma two_files_ids:
  "fst (find_all_transaction_ids (example_env api_ok)
     (world0 [([''merchants'', ''30.json''], Text two_tx), ([''plans'', ''30.json''], Text one_tx)]))
   = {id_a, id_b}"
  by code_simp

lemma fetched_None_iff:
  "fetched e path = PyNone \<longleftrightarrow>
     (\<exists>msg. outcome (api e (BASE_URL @ path)) = Raised msg)
     \<or> (\<exists>returncode stdout stderr.
           outcome (api e (BASE_URL @ path)) = Completed returncode stdout stderr
           \<and> (returncode \<noteq> 0 \<or> stdout = [] \<or> (\<exists>msg. loads e stdout = Inl msg)
                \<or> loads e stdout = Inr PyNone))"
  by (cases "outcome (api e (BASE_URL @ path))")
     (auto simp: fetched_def split: sum.splits)

lemma fetched_value:
  "fetched e path = v \<Longrightarrow> v \<noteq> PyNone \<Longrightarrow>
     \<exists>stdout stderr. outcome (api e (BASE_URL @ path)) = Completed 0 stdout stderr
        \<and> stdout \<noteq> [] \<and> loads e stdout = Inr v"
  by (cases "outcome (api e (BASE_URL @ path))")
     (auto simp: fetched_def split: sum.splits if_splits)

lemma fetched_status:
  "fetched (e\<lparr>api := \<lambda>url. (api e url)\<lparr>http_status := h url\<rparr>\<rparr>) path = fetched e path"
  by (cases "outcome (api e (BASE_URL @ path))") (simp_all add: fetched_def)







lemma plan_loop_append:
  "plan_loop e m (xs @ ys) s =
     (case plan_loop e m xs s of Inl err \<Rightarrow> Inl err | Inr s1 \<Rightarrow> plan_loop e m ys s1)"
  by (induction xs arbitrary: s) (auto split: sum.splits)

lemma plan_step_no_key:
  "map_of kvs ''plan_key'' \<in> {None, Some PyNone, Some (PyStr [])} \<Longrightarrow>
     plan_step e m (PyDict kvs) s = Inr s"
  by (auto simp: plan_step_def plan_get_def)














lemma not_id_char_slash: "\<not> id_char (CHR ''/'')"
  by (simp add: id_char_def)

lemma slash_not_id_char: "list_all id_char x \<Longrightarrow> CHR ''/'' \<notin> set x"
  using not_id_char_slash unfolding list_all_iff by blast


lemma why_url_inj: "why_url x = why_url y \<longleftrightarrow> x = y"
  by (simp add: why_url_def)

lemma primary_ne_why:
  assumes "CHR ''/'' \<notin> set x"
  shows "primary_url x \<noteq> why_url y"
proof
  assume "primary_url x = why_url y"
  then have "x = y @ ''/why''" by (simp add: primary_url_def why_url_def)
  then have "CHR ''/'' \<in> set x" by simp
  with assms show False by contradiction
qed

lemma in_step_calls:
  "u \<in> set (step_calls e tx_id) \<longleftrightarrow>
     u = primary_url tx_id \<or> (truthy (fetched e (''/transactions/'' @ tx_id)) \<and> u = why_url tx_id)"
  by (auto simp: step_calls_def)

lemma new_calls_main:
  "drop (length (calls s)) (calls (main e s)) = concat (map (step_calls e) (work e s))"
  by (simp add: main_calls)





definition why_path :: "string \<Rightarrow> path" where
  "why_path tx_id = [''transactions'', ''why'', tx_id @ ''.json'']"

definition static_step_files :: "env \<Rightarrow> string \<Rightarrow> tree \<Rightarrow> tree" where
  "static_step_files e tx_id fs =
     (let f1 = (if truthy (fetched e (''/transactions/'' @ tx_id))
                then fs_write [''transactions'', tx_id @ ''.json'']
                       (Text (dumps e (fetched e (''/transactions/'' @ tx_id)))) fs
                else fs)
      in if truthy (fetched e (''/transactions/'' @ tx_id @ ''/why''))
         then fs_write (why_path tx_id)
                (Text (dumps e (fetched e (''/transactions/'' @ tx_id @ ''/why'')))) f1
         else f1)"

lemma tx_step_static_calls:
  "calls (tx_step_static e n i tx_id s) = calls s @ [primary_url tx_id, why_url tx_id]"
  by (simp add: tx_step_static_def Let_def case_prod_beta calls_fetch_json_static
      files_fetch_json_static primary_url_def why_url_def)

lemma tx_step_static_files:
  "files (tx_step_static e n i tx_id s) = static_step_files e tx_id (files s)"
  by (simp add: tx_step_static_def Let_def case_prod_beta fst_fetch_json_static
      files_fetch_json_static static_step_files_def why_path_def)

lemma tx_loop_static_calls:
  "calls (tx_loop_static e n i ids s)
     = calls s @ concat (map (\<lambda>tx_id. [primary_url tx_id, why_url tx_id]) ids)"
  by (induction ids arbitrary: i s) (simp_all add: tx_step_static_calls)

lemma tx_loop_static_files:
  "files (tx_loop_static e n i ids s) = fold (static_step_files e) ids (files s)"
  by (induction ids arbitrary: i s) (simp_all add: tx_step_static_files)

lemma extract_transactions_of_calls:
  "calls (extract_transactions_of e ids s)
     = calls s @ concat (map (\<lambda>tx_id. [primary_url tx_id, why_url tx_id]) ids)"
  by (simp add: extract_transactions_of_def tx_loop_static_calls)

lemma extract_transactions_of_files:
  "files (extract_transactions_of e ids s) = fold (static_step_files e) ids (files s)"
  by (simp add: extract_transactions_of_def tx_loop_static_files)

lemma why_path_eq: "why_path a = why_path b \<longleftrightarrow> a = b"
  by (simp add: why_path_def)

lemma why_path_ne_primary: "[''transactions'', a @ ''.json''] \<noteq> why_path b"
  by (simp add: why_path_def)

lemma static_step_why:
  "map_of (static_step_files e a fs) (why_path tx_id) =
     (if a = tx_id \<and> truthy (fetched e (''/transactions/'' @ a @ ''/why''))
      then Some (Text (dumps e (fetched e (''/transactions/'' @ a @ ''/why''))))
      else map_of fs (why_path tx_id))"
  using why_path_ne_primary [of a tx_id]
  by (simp add: static_step_files_def Let_def map_of_fs_write why_path_eq)

lemma static_fold_why_kept:
  "map_of fs (why_path tx_id)
       = Some (Text (dumps e (fetched e (''/transactions/'' @ tx_id @ ''/why'')))) \<Longrightarrow>
   map_of (fold (static_step_files e) ids fs) (why_path tx_id)
       = Some (Text (dumps e (fetched e (''/transactions/'' @ tx_id @ ''/why''))))"
  by (induction ids arbitrary: fs) (simp_all add: static_step_why)

lemma static_fold_why:
  "tx_id \<in> set ids \<Longrightarrow> truthy (fetched e (''/transactions/'' @ tx_id @ ''/why'')) \<Longrightarrow>
   map_of (fold (static_step_files e) ids fs) (why_path tx_id)
       = Some (Text (dumps e (fetched e (''/transactions/'' @ tx_id @ ''/why''))))"
proof (induction ids arbitrary: fs)
  case Nil
  then show ?case by simp
next
  case (Cons a ids)
  show ?case
  proof (cases "a = tx_id")
    case True
    with Cons.prems(2) have "map_of (static_step_files e a fs) (why_path tx_id)
        = Some (Text (dumps e (fetched e (''/transactions/'' @ tx_id @ ''/why''))))"
      by (simp add: static_step_why)
    then show ?thesis by (simp add: static_fold_why_kept)
  next
    case False
    with Cons show ?thesis by simp
  qed
qed

lemma static_why_attempted:
  "tx_id \<in> set ids \<Longrightarrow>
     why_url tx_id \<in> set (concat (map (\<lambda>tx_id. [primary_url tx_id, why_url tx_id]) ids))"
  by (induction ids) auto

lemma step_files_why:
  "map_of (step_files e a fs) (why_path tx_id) =
     (if a = tx_id \<and> truthy (fetched e (''/transactions/'' @ a))
         \<and> truthy (fetched e (''/transactions/'' @ a @ ''/why''))
      then Some (Text (dumps e (fetched e (''/transactions/'' @ a @ ''/why''))))
      else map_of fs (why_path tx_id))"
  using why_path_ne_primary [of a tx_id]
  by (simp add: step_files_def Let_def map_of_fs_write why_path_eq why_path_def [symmetric])

lemma fold_step_files_why:
  "\<not> truthy (fetched e (''/transactions/'' @ tx_id)) \<Longrightarrow>
   map_of (fold (step_files e) ids fs) (why_path tx_id) = map_of fs (why_path tx_id)"
proof (induction ids arbitrary: fs)
  case Nil
  then show ?case by simp
next
  case (Cons a ids)
  have "map_of (step_files e a fs) (why_path tx_id) = map_of fs (why_path tx_id)"
    using Cons.prems by (cases "a = tx_id") (simp_all add: step_files_why)
  with Cons show ?case by simp
qed

lemma why_not_attempted:
  assumes "\<not> truthy (fetched e (''/transactions/'' @ tx_id))"
  shows "why_url tx_id \<notin> set (concat (map (step_calls e) (work e s)))"
proof
  assume "why_url tx_id \<in> set (concat (map (step_calls e) (work e s)))"
  then obtain x where x: "x \<in> set (work e s)" "why_url tx_id \<in> set (step_calls e x)"
    unfolding set_concat set_map by blast
  from x(1) have "x \<in> fst (find_all_transaction_ids e s)" by (simp add: set_work)
  then have sl: "CHR ''/'' \<notin> set x"
    using find_all_id_char slash_not_id_char by blast
  from x(2) have "why_url tx_id = primary_url x
      \<or> (truthy (fetched e (''/transactions/'' @ x)) \<and> why_url tx_id = why_url x)"
    unfolding in_step_calls by blast
  then show False
  proof
    assume "why_url tx_id = primary_url x"
    then have "primary_url x = why_url tx_id" by simp
    with primary_ne_why [OF sl] show False by blast
  next
    assume a: "truthy (fetched e (''/transactions/'' @ x)) \<and> why_url tx_id = why_url x"
    then have "tx_id = x" by (simp only: why_url_inj)
    with a assms show False by simp
  qed
qed

lemma id_a_static: "id_a \<in> set TRANSACTION_IDS"
  by (simp add: TRANSACTION_IDS_def id_a_def)

lemma fetched_why_only:
  "fetched (example_env api_why_only) (''/transactions/'' @ id_a) = PyNone
   \<and> fetched (example_env api_why_only) (''/transactions/'' @ id_a @ ''/why'') = PyList [PyInt 1]"
  by code_simp

lemma new_calls_extract_transactions:
  "drop (length (calls s)) (calls (extract_transactions e s))
     = concat (map (\<lambda>tx_id. [primary_url tx_id, why_url tx_id]) TRANSACTION_IDS)"
  by (simp add: extract_transactions_def extract_transactions_of_calls)

text \<open>
  The environment in which every body that decodes to a value that is not true does not
  decode at all: there the fetch of such a body is a failed fetch.
\<close>

definition falsy_as_failure :: "env \<Rightarrow> env" where
  "falsy_as_failure e =
     e\<lparr>loads := \<lambda>body. case loads e body of
                        Inl msg \<Rightarrow> Inl msg
                      | Inr v \<Rightarrow> if truthy v then Inr v else Inl ''no true value''\<rparr>"

text \<open>What a run leaves behind: the files and the calls made.\<close>

definition obs :: "world \<Rightarrow> tree \<times> string list" where
  "obs s = (files s, calls s)"

definition obs_result :: "py_error + world \<Rightarrow> py_error + tree \<times> string list" where
  "obs_result r = (case r of Inl err \<Rightarrow> Inl err | Inr s \<Rightarrow> Inr (obs s))"


lemma fetched_falsy_as_failure:
  "fetched (falsy_as_failure e) path = (if truthy (fetched e path) then fetched e path else PyNone)"
  by (cases "outcome (api e (BASE_URL @ path))")
     (auto simp: fetched_def falsy_as_failure_def split: sum.splits)

lemma truthy_fetched_falsy_as_failure [simp]:
  "truthy (fetched (falsy_as_failure e) path) = truthy (fetched e path)"
  by (simp add: fetched_falsy_as_failure)

lemma dumps_falsy_as_failure [simp]: "dumps (falsy_as_failure e) = dumps e"
  by (simp add: falsy_as_failure_def)

lemma data_dir_falsy_as_failure [simp]: "data_dir (falsy_as_failure e) = data_dir e"
  by (simp add: falsy_as_failure_def)

lemma obs_print [simp]: "obs (print t s) = obs s"
  by (simp add: obs_def)

lemma obs_print_end [simp]: "obs (print_end t x s) = obs s"
  by (simp add: obs_def)






lemma obs_result_simps [simp]:
  "obs_result (Inl err) = Inl err" "obs_result (Inr s) = Inr (obs s)"
  by (simp_all add: obs_result_def)
















lemma path_str_falsy_as_failure [simp]: "path_str (falsy_as_failure e) p = path_str e p"
  by (simp add: path_str_def)













section \<open>Plan keys\<close>

lemma quote_m_30_plan_v1: "quote ''m:30:plan/v1'' = ''m%3A30%3Aplan%2Fv1''"
  by code_simp

lemma str_nat_30: "str_nat 30 = ''30''"
  by code_simp

text \<open>
  C7.  For the plan key \<^verbatim>\<open>m:30:plan/v1\<close> of merchant 30 the loop body fetches the path
  whose last segment is \<^verbatim>\<open>m%3A30%3Aplan%2Fv1\<close>, the key percent-encoded with neither the
  slash nor the colon exempt, and, when that fetch gives a true value, saves it as
  \<^verbatim>\<open>plans/details/m_30_plan_v1.json\<close>: every colon and slash of the key is an underscore
  in the file name.
\<close>

theorem plan_key_m_30_plan_v1:
  "quote ''m:30:plan/v1'' = ''m%3A30%3Aplan%2Fv1''
   \<and> replace (CHR ''/'') (CHR ''_'') (replace (CHR '':'') (CHR ''_'') ''m:30:plan/v1'') @ ''.json''
       = ''m_30_plan_v1.json''
   \<and> plan_step e (str_nat 30) (PyDict [(''plan_key'', PyStr ''m:30:plan/v1'')]) s =
       (case fetch_json_static e ''/merchants/30/plans/m%3A30%3Aplan%2Fv1'' s of
          (plan_data, s1) \<Rightarrow>
            Inr (if truthy plan_data
                 then save_json_static e plan_data [''plans'', ''details'', ''m_30_plan_v1.json''] s1
                 else s1))"
  by (simp add: plan_step_def plan_get_def quote_m_30_plan_v1 str_nat_30 replace_def
      split: prod.splits)

theorem plan_key_m_30_plan_v1_witness:
  "(case plan_step (example_env api_ok) (str_nat 30)
           (PyDict [(''plan_key'', PyStr ''m:30:plan/v1'')]) (world0 []) of
      Inl err \<Rightarrow> False
    | Inr s \<Rightarrow>
        calls s = [''http://localhost:8000/api/merchants/30/plans/m%3A30%3Aplan%2Fv1'']
        \<and> map fst (files s) = [[''plans'', ''details'', ''m_30_plan_v1.json'']])"
  using plan_key_m_30_plan_v1 [of "example_env api_ok" "world0 []"]
  by (simp add: fetch_json_static_def save_json_static_def example_env_def api_ok_def
      example_loads_def world0_def BASE_URL_def print_def Let_def)

section \<open>The scan for identifiers\<close>



text \<open>
  C6 as stated fails: a JSON file outside the transactions subtree whose name contains
  the word is not scanned.
\<close>

theorem scan_skips_file_outside_subtree:
  "findall one_tx = [id_a]
   \<and> fst (find_all_transaction_ids (example_env api_ok)
        (world0 [([''merchants'', ''transactions_30.json''], Text one_tx)])) = {}"
  by code_simp

text \<open>
  C6, amended.  The scan enumerates the entries whose name ends in \<^verbatim>\<open>.json\<close> and skips
  exactly those whose full path string contains \<^verbatim>\<open>transactions\<close>: an entry that is
  skipped or has another suffix changes neither the result nor the output; a text file
  that is not skipped and has the suffix adds its matches; every path below the
  transactions directory is skipped.
\<close>

theorem scan_skips_paths_containing_transactions:
  "(str_in ''transactions'' (path_str e p) \<or> \<not> fnmatch_json (path_name p) \<longrightarrow>
      find_all_transaction_ids e (s\<lparr>files := pre @ (p, node) # post\<rparr>)
        = (fst (find_all_transaction_ids e (s\<lparr>files := pre @ post\<rparr>)),
           (snd (find_all_transaction_ids e (s\<lparr>files := pre @ post\<rparr>)))
              \<lparr>files := pre @ (p, node) # post\<rparr>))
   \<and> (\<not> str_in ''transactions'' (path_str e p) \<and> fnmatch_json (path_name p) \<longrightarrow>
      fst (find_all_transaction_ids e (s\<lparr>files := pre @ (p, Text content) # post\<rparr>))
        = fst (find_all_transaction_ids e (s\<lparr>files := pre @ post\<rparr>)) \<union> set (findall content))
   \<and> str_in ''transactions'' (path_str e (''transactions'' # rest))"
proof -
  have "str_in ''transactions'' (path_str e p) \<or> \<not> fnmatch_json (path_name p) \<longrightarrow>
      find_all_transaction_ids e (s\<lparr>files := pre @ (p, node) # post\<rparr>)
        = (fst (find_all_transaction_ids e (s\<lparr>files := pre @ post\<rparr>)),
           (snd (find_all_transaction_ids e (s\<lparr>files := pre @ post\<rparr>)))
              \<lparr>files := pre @ (p, node) # post\<rparr>)"
    by (auto simp: find_all_eq rglob_json_def file_ids_def file_log_def skipped_def)
  moreover have "\<not> str_in ''transactions'' (path_str e p) \<and> fnmatch_json (path_name p) \<longrightarrow>
      fst (find_all_transaction_ids e (s\<lparr>files := pre @ (p, Text content) # post\<rparr>))
        = fst (find_all_transaction_ids e (s\<lparr>files := pre @ post\<rparr>)) \<union> set (findall content)"
    by (simp add: scan_ids_insert file_ids_def skipped_def)
  moreover have "str_in ''transactions'' (path_str e (''transactions'' # rest))"
    using skipped_transactions_subtree by (simp add: skipped_def)
  ultimately show ?thesis by blast
qed

theorem scan_skips_paths_containing_transactions_witness:
  "fst (find_all_transaction_ids (example_env api_ok)
      (world0 [([''merchants'', ''transactions_30.json''], Text two_tx),
               ([''plans'', ''30.json''], Text one_tx)])) = {id_a}
   \<and> fst (find_all_transaction_ids (example_env api_ok)
      (world0 [([''merchants'', ''30.json''], Text two_tx)])) = {id_a, id_b}"
proof -
  let ?e = "example_env api_ok"
  note t1 = scan_skips_paths_containing_transactions
      [where e = ?e and p = "[''merchants'', ''transactions_30.json'']" and s = "world0 []"
         and pre = "[]" and node = "Text two_tx"
         and post = "[([''plans'', ''30.json''], Text one_tx)]"]
  note t2 = scan_skips_paths_containing_transactions
      [where e = ?e and p = "[''merchants'', ''30.json'']" and s = "world0 []"
         and pre = "[]" and post = "[]" and content = two_tx]
  have h1: "str_in ''transactions'' (path_str ?e [''merchants'', ''transactions_30.json''])"
    by code_simp
  have h2: "\<not> str_in ''transactions'' (path_str ?e [''merchants'', ''30.json''])
      \<and> fnmatch_json (path_name [''merchants'', ''30.json''])"
    by code_simp
  have a: "fst (find_all_transaction_ids ?e
      (world0 [([''merchants'', ''transactions_30.json''], Text two_tx),
               ([''plans'', ''30.json''], Text one_tx)]))
     = fst (find_all_transaction_ids ?e (world0 [([''plans'', ''30.json''], Text one_tx)]))"
    using t1 h1 by (simp add: world0_def)
  have b: "fst (find_all_transaction_ids ?e (world0 [([''merchants'', ''30.json''], Text two_tx)]))
     = fst (find_all_transaction_ids ?e (world0 [])) \<union> set (findall two_tx)"
    using t2 h2 by (simp add: world0_def)
  have c: "fst (find_all_transaction_ids ?e (world0 [([''plans'', ''30.json''], Text one_tx)])) = {id_a}"
    by code_simp
  have d: "fst (find_all_transaction_ids ?e (world0 [])) = {}"
    by code_simp
  show ?thesis using a b c d by (auto simp: findall_two_tx)
qed

text \<open>
  C8.  An entry that cannot be read leaves the result of the scan as it is without that
  entry, so the matches of all other files are still returned; when the entry is one
  the scan reads (suffix \<^verbatim>\<open>.json\<close>, path not skipped), the error is printed.
\<close>

theorem scan_tolerates_unreadable_file:
  "fst (find_all_transaction_ids e (s\<lparr>files := pre @ (p, Unreadable msg) # post\<rparr>))
     = fst (find_all_transaction_ids e (s\<lparr>files := pre @ post\<rparr>))
   \<and> (fnmatch_json (path_name p) \<and> \<not> str_in ''transactions'' (path_str e p) \<longrightarrow>
        (''  Error reading '' @ path_str e p @ '': '' @ msg @ [CHR 0x0A])
          \<in> set (out (snd (find_all_transaction_ids e (s\<lparr>files := pre @ (p, Unreadable msg) # post\<rparr>)))))"
  by (simp add: scan_ids_insert scan_out_insert file_ids_def file_log_def skipped_def)

theorem scan_tolerates_unreadable_file_witness:
  "fst (find_all_transaction_ids (example_env api_ok)
      (world0 [([''merchants'', ''30.json''], Text two_tx),
               ([''monthly'', ''30.json''], Unreadable ''invalid start byte''),
               ([''plans'', ''30.json''], Text one_tx)])) = {id_a, id_b}
   \<and> ''  Error reading /srv/demo/data/monthly/30.json: invalid start byte'' @ [CHR 0x0A]
       \<in> set (out (snd (find_all_transaction_ids (example_env api_ok)
      (world0 [([''merchants'', ''30.json''], Text two_tx),
               ([''monthly'', ''30.json''], Unreadable ''invalid start byte''),
               ([''plans'', ''30.json''], Text one_tx)]))))"
proof -
  let ?e = "example_env api_ok"
  note t = scan_tolerates_unreadable_file
      [where e = ?e and s = "world0 []"
         and pre = "[([''merchants'', ''30.json''], Text two_tx)]"
         and p = "[''monthly'', ''30.json'']" and msg = "''invalid start byte''"
         and post = "[([''plans'', ''30.json''], Text one_tx)]"]
  have h: "fnmatch_json (path_name [''monthly'', ''30.json''])
      \<and> \<not> str_in ''transactions'' (path_str ?e [''monthly'', ''30.json''])"
    by code_simp
  have p: "path_str ?e [''monthly'', ''30.json''] = ''/srv/demo/data/monthly/30.json''"
    by code_simp
  show ?thesis using t h by (simp add: world0_def two_files_ids [unfolded world0_def] p)
qed

section \<open>What a fetch returns\<close>

text \<open>
  C2 as stated fails in both directions.  A response with status 404 whose body is JSON
  is one of the three cases, and the fetch returns the decoded body; a response with
  status 200 and the body \<^verbatim>\<open>null\<close> is none of them, and the fetch returns \<^verbatim>\<open>None\<close>.
\<close>

theorem fetch_json_ignores_http_status:
  "spec_fetch_failure (example_env api_404) (''/transactions/'' @ id_a)
   \<and> fst (fetch_json (example_env api_404) (''/transactions/'' @ id_a) (world0 []))
       = PyDict [(''detail'', PyStr ''Not Found'')]
   \<and> \<not> spec_fetch_failure (example_env api_null) (''/transactions/'' @ id_a)
   \<and> fst (fetch_json (example_env api_null) (''/transactions/'' @ id_a) (world0 [])) = PyNone"
  by (simp add: spec_fetch_failure_def fetch_json_def example_env_def api_404_def api_null_def
      example_loads_def not_found_body_def dq_def Let_def)

text \<open>
  C2, amended.  Both fetch functions return a value for every path and raise nothing.
  The value is \<^verbatim>\<open>None\<close> exactly when starting curl raises, curl exits with a code
  other than 0, curl wrote nothing, the body does not decode, or the body decodes to
  \<^verbatim>\<open>null\<close>; every other value returned is the decoded body of a run that exited with 0.
  The HTTP status has no part in it.
\<close>

theorem fetch_json_none_iff:
  "(fst (fetch_json e path s) = PyNone \<longleftrightarrow>
      (\<exists>msg. outcome (api e (BASE_URL @ path)) = Raised msg)
      \<or> (\<exists>returncode stdout stderr.
            outcome (api e (BASE_URL @ path)) = Completed returncode stdout stderr
            \<and> (returncode \<noteq> 0 \<or> stdout = [] \<or> (\<exists>msg. loads e stdout = Inl msg)
                 \<or> loads e stdout = Inr PyNone)))
   \<and> (fst (fetch_json e path s) \<noteq> PyNone \<longrightarrow>
        (\<exists>stdout stderr. outcome (api e (BASE_URL @ path)) = Completed 0 stdout stderr
           \<and> loads e stdout = Inr (fst (fetch_json e path s))))
   \<and> fst (fetch_json_static e path s) = fst (fetch_json e path s)
   \<and> fst (fetch_json (e\<lparr>api := \<lambda>url. (api e url)\<lparr>http_status := h url\<rparr>\<rparr>) path s)
       = fst (fetch_json e path s)"
  using fetched_None_iff [of e path] fetched_value [of e path "fetched e path"]
  by (simp only: fst_fetch_json fst_fetch_json_static fetched_status) blast

theorem fetch_json_none_iff_witness:
  "fst (fetch_json (example_env api_down) (''/transactions/'' @ id_a) (world0 [])) = PyNone
   \<and> fst (fetch_json (example_env api_ok) (''/transactions/'' @ id_a) (world0 [])) = PyList [PyInt 1]
   \<and> fst (fetch_json_static (example_env api_ok) (''/transactions/'' @ id_a) (world0 []))
       = PyList [PyInt 1]"
proof -
  note a = fetch_json_none_iff [where e = "example_env api_down" and path = "''/transactions/'' @ id_a"
      and s = "world0 []"]
  note b = fetch_json_none_iff [where e = "example_env api_ok" and path = "''/transactions/'' @ id_a"
      and s = "world0 []"]
  have "outcome (api (example_env api_down) (BASE_URL @ ''/transactions/'' @ id_a)) = Completed 7 [] []"
    by (simp add: example_env_def api_down_def)
  with a have 1: "fst (fetch_json (example_env api_down) (''/transactions/'' @ id_a) (world0 [])) = PyNone"
    by simp
  have 2: "fst (fetch_json (example_env api_ok) (''/transactions/'' @ id_a) (world0 [])) = PyList [PyInt 1]"
    by (simp add: fetch_json_def example_env_def api_ok_def example_loads_def Let_def)
  with b have "fst (fetch_json_static (example_env api_ok) (''/transactions/'' @ id_a) (world0 []))
       = PyList [PyInt 1]"
    by simp
  with 1 2 show ?thesis by simp
qed

section \<open>The work set\<close>




section \<open>Plan entries without a key\<close>

text \<open>
  C10.  A plan entry that is a dict whose \<^verbatim>\<open>plan_key\<close> is missing, \<^verbatim>\<open>None\<close> or the
  empty string leaves the state as it is: no fetch, no file, no output.  The loop over
  the plan list gives the result it gives for the list without that entry, so the other
  entries are processed as they would be without it.
\<close>

theorem plan_without_key_is_skipped:
  "map_of kvs ''plan_key'' \<in> {None, Some PyNone, Some (PyStr [])} \<Longrightarrow>
     plan_step e merchant_id (PyDict kvs) s = Inr s
     \<and> plan_loop e merchant_id (pre @ PyDict kvs # post) s = plan_loop e merchant_id (pre @ post) s"
  using plan_step_no_key [of kvs e merchant_id]
  by (simp add: plan_loop_append split: sum.splits)

theorem plan_without_key_is_skipped_witness:
  "(case plan_loop (example_env api_ok) ''30''
           [PyDict [(''name'', PyStr ''basic'')],
            PyDict [(''plan_key'', PyStr ''m:30:plan/v1'')]] (world0 []) of
      Inl err \<Rightarrow> False
    | Inr s \<Rightarrow> calls s = [''http://localhost:8000/api/merchants/30/plans/m%3A30%3Aplan%2Fv1'']
               \<and> map fst (files s) = [[''plans'', ''details'', ''m_30_plan_v1.json'']])"
proof -
  have "map_of [(''name'', PyStr ''basic'')] ''plan_key'' \<in> {None, Some PyNone, Some (PyStr [])}"
    by simp
  from plan_without_key_is_skipped [OF this, where e = "example_env api_ok"
      and merchant_id = "''30''" and s = "world0 []" and pre = "[]"
      and post = "[PyDict [(''plan_key'', PyStr ''m:30:plan/v1'')]]"]
  show ?thesis
    by (simp add: plan_step_def plan_get_def quote_m_30_plan_v1 replace_def
        fetch_json_static_def save_json_static_def example_env_def api_ok_def
        example_loads_def world0_def BASE_URL_def print_def Let_def)
qed

section \<open>Running the discovery script again\<close>




section \<open>The why fetch after a failed primary fetch\<close>

text \<open>
  C1 as stated fails for the static variant: with an API that serves the why documents
  and lets the transaction documents time out, the fetch of the first transaction returns
  \<^verbatim>\<open>None\<close>, its why URL is fetched all the same, and the why file exists afterwards.
\<close>

theorem static_variant_fetches_why_after_failure:
  "fst (fetch_json_static (example_env api_why_only)
          (''/transactions/'' @ ''dd129486-0b41-4b60-b023-b84834eb88d1'') (world0 [])) = PyNone
   \<and> BASE_URL @ ''/transactions/'' @ ''dd129486-0b41-4b60-b023-b84834eb88d1'' @ ''/why''
       \<in> set (calls (extract_transactions (example_env api_why_only) (world0 [])))
   \<and> map_of (files (extract_transactions (example_env api_why_only) (world0 [])))
        [''transactions'', ''why'', ''dd129486-0b41-4b60-b023-b84834eb88d1'' @ ''.json'']
       = Some (Text (dumps (example_env api_why_only) (PyList [PyInt 1])))"
proof -
  let ?e = "example_env api_why_only"
  have 1: "fst (fetch_json_static ?e (''/transactions/'' @ id_a) (world0 [])) = PyNone"
    using fetched_why_only by (simp only: fst_fetch_json_static)
  have "why_url id_a \<in> set (calls (extract_transactions ?e (world0 [])))"
    using static_why_attempted [OF id_a_static]
    by (simp add: extract_transactions_def extract_transactions_of_calls)
  then have 2: "BASE_URL @ ''/transactions/'' @ id_a @ ''/why''
       \<in> set (calls (extract_transactions ?e (world0 [])))"
    by (simp only: why_url_def)
  have "truthy (fetched ?e (''/transactions/'' @ id_a @ ''/why''))"
    using fetched_why_only by simp
  from static_fold_why [OF id_a_static this]
  have 3: "map_of (files (extract_transactions ?e (world0 [])))
        [''transactions'', ''why'', id_a @ ''.json'']
       = Some (Text (dumps ?e (PyList [PyInt 1])))"
    using fetched_why_only
    by (simp add: extract_transactions_def extract_transactions_of_files why_path_def)
  from 1 2 3 show ?thesis by (simp only: id_a_def)
qed

text \<open>
  C1, amended.  In the discovery variant, when the fetch of a transaction gives no true
  value, the run fetches no why URL for that identifier and leaves the file
  \<^verbatim>\<open>transactions/why/{id}.json\<close> as it was before the run, absent if it was absent.  In
  the static variant the why URL of every listed identifier is fetched whatever the
  fetch of the transaction returned, and its file holds the why document whenever that
  fetch gives a true value.
\<close>

theorem why_is_skipped_only_by_the_discovery_variant:
  "(\<not> truthy (fst (fetch_json e (''/transactions/'' @ tx_id) s)) \<longrightarrow>
      BASE_URL @ ''/transactions/'' @ tx_id @ ''/why''
        \<notin> set (drop (length (calls s)) (calls (main e s)))
      \<and> map_of (files (main e s)) [''transactions'', ''why'', tx_id @ ''.json'']
          = map_of (files s) [''transactions'', ''why'', tx_id @ ''.json''])
   \<and> (tx_id \<in> set TRANSACTION_IDS \<longrightarrow>
        BASE_URL @ ''/transactions/'' @ tx_id @ ''/why''
          \<in> set (drop (length (calls s)) (calls (extract_transactions e s))))
   \<and> (tx_id \<in> set TRANSACTION_IDS
        \<and> truthy (fst (fetch_json_static e (''/transactions/'' @ tx_id @ ''/why'') s)) \<longrightarrow>
        map_of (files (extract_transactions e s)) [''transactions'', ''why'', tx_id @ ''.json'']
          = Some (Text (dumps e (fst (fetch_json_static e (''/transactions/'' @ tx_id @ ''/why'') s)))))"
proof -
  have a: "\<not> truthy (fst (fetch_json e (''/transactions/'' @ tx_id) s)) \<longrightarrow>
      BASE_URL @ ''/transactions/'' @ tx_id @ ''/why''
        \<notin> set (drop (length (calls s)) (calls (main e s)))
      \<and> map_of (files (main e s)) [''transactions'', ''why'', tx_id @ ''.json'']
          = map_of (files s) [''transactions'', ''why'', tx_id @ ''.json'']"
    using why_not_attempted [of e tx_id s] fold_step_files_why [of e tx_id "work e s" "files s"]
    by (simp only: fst_fetch_json new_calls_main main_files why_url_def why_path_def) blast
  have b: "tx_id \<in> set TRANSACTION_IDS \<longrightarrow>
        BASE_URL @ ''/transactions/'' @ tx_id @ ''/why''
          \<in> set (drop (length (calls s)) (calls (extract_transactions e s)))"
    using static_why_attempted [of tx_id TRANSACTION_IDS]
    by (simp only: new_calls_extract_transactions why_url_def) blast
  have c: "tx_id \<in> set TRANSACTION_IDS
        \<and> truthy (fst (fetch_json_static e (''/transactions/'' @ tx_id @ ''/why'') s)) \<longrightarrow>
        map_of (files (extract_transactions e s)) [''transactions'', ''why'', tx_id @ ''.json'']
          = Some (Text (dumps e (fst (fetch_json_static e (''/transactions/'' @ tx_id @ ''/why'') s))))"
    using static_fold_why [of tx_id TRANSACTION_IDS e "files s"]
    by (simp only: fst_fetch_json_static extract_transactions_def extract_transactions_of_files
        why_path_def) blast
  from a b c show ?thesis by blast
qed

theorem why_is_skipped_only_by_the_discovery_variant_witness:
  "calls (main (example_env api_down) (world0 tree_c4))
     = [''http://localhost:8000/api/transactions/dd129486-0b41-4b60-b023-b84834eb88d1'']
   \<and> map_of (files (main (example_env api_down) (world0 tree_c4)))
        [''transactions'', ''why'', ''dd129486-0b41-4b60-b023-b84834eb88d1.json''] = None
   \<and> ''http://localhost:8000/api/transactions/dd129486-0b41-4b60-b023-b84834eb88d1/why''
       \<in> set (calls (extract_transactions (example_env api_down) (world0 [])))"
proof -
  let ?e = "example_env api_down"
  note t1 = why_is_skipped_only_by_the_discovery_variant
      [where e = ?e and tx_id = id_a and s = "world0 tree_c4"]
  note t2 = why_is_skipped_only_by_the_discovery_variant
      [where e = ?e and tx_id = id_a and s = "world0 []"]
  have h: "\<not> truthy (fst (fetch_json ?e (''/transactions/'' @ id_a) (world0 tree_c4)))"
    by (simp add: fst_fetch_json fetched_def example_env_def api_down_def)
  have m: "map_of (files (world0 tree_c4)) [''transactions'', ''why'', id_a @ ''.json''] = None"
    by (simp add: world0_def tree_c4_def)
  have 1: "calls (main ?e (world0 tree_c4))
     = [''http://localhost:8000/api/transactions/dd129486-0b41-4b60-b023-b84834eb88d1'']"
    by code_simp
  from t1 h m have 2: "map_of (files (main ?e (world0 tree_c4)))
        [''transactions'', ''why'', id_a @ ''.json''] = None"
    by simp
  from t2 id_a_static have 3: "BASE_URL @ ''/transactions/'' @ id_a @ ''/why''
       \<in> set (calls (extract_transactions ?e (world0 [])))"
    by (simp add: world0_def)
  from 1 2 3 show ?thesis by (simp add: id_a_def BASE_URL_def)
qed

section \<open>Values that are not true\<close>



end
